theory Spec2Isabelle
  imports Complex_Main
begin

section \<open>Arrays and Python values\<close>

text \<open>
  The exceptions that the modelled code and the array engine raise.  \<open>ValueError\<close> is the
  one \<open>uniform\<close> raises itself; the others come from the engine (\<open>len\<close> of a tensor
  without axes, an index out of range, a refused request).
\<close>

datatype error = ValueError | TypeError | RuntimeError | IndexError

type_synonym shape = "nat list"

text \<open>
  A tensor is its shape (a tuple of non-negative integers) together with its entries in
  row-major order.
\<close>

datatype 'a tensor = Tensor (shape: shape) (data: "'a list")

definition numel :: "shape \<Rightarrow> nat" where
  "numel s = prod_list s"

definition wf_tensor :: "'a tensor \<Rightarrow> bool" where
  "wf_tensor t \<longleftrightarrow> length (data t) = numel (shape t)"

text \<open>
  What \<open>choice\<close> may be handed as its population: a tensor, or something that is not a
  tensor (a plain scalar, a plain list).
\<close>

datatype 'a pyval = PTensor "'a tensor" | PScalar 'a | PList "'a list"

fun is_tensor :: "'a pyval \<Rightarrow> bool" where
  "is_tensor (PTensor t) = True"
| "is_tensor (PScalar v) = False"
| "is_tensor (PList vs) = False"

text \<open>\<open>len(x)\<close> of a tensor: the length of the first axis; a tensor without axes has none.\<close>

fun len_t :: "'a tensor \<Rightarrow> error + nat" where
  "len_t (Tensor [] xs) = Inl TypeError"
| "len_t (Tensor (n # rest) xs) = Inr n"

text \<open>The \<open>i\<close>-th slice along the first axis, as its row-major entries.\<close>

definition row :: "'a tensor \<Rightarrow> nat \<Rightarrow> 'a list" where
  "row t i = (let m = numel (tl (shape t)) in take m (drop (i * m) (data t)))"

text \<open>
  \<open>x[idx]\<close> for a one-axis tensor \<open>idx\<close> of indices: the selected slices, stacked along a
  new first axis.  An index beyond the first axis raises.
\<close>

fun index_t :: "'a tensor \<Rightarrow> nat tensor \<Rightarrow> error + 'a tensor" where
  "index_t (Tensor [] xs) idx = Inl IndexError"
| "index_t (Tensor (n # rest) xs) idx =
     (if \<exists>i \<in> set (data idx). n \<le> i then Inl IndexError
      else Inr (Tensor (shape idx @ rest) (concat (map (row (Tensor (n # rest) xs)) (data idx)))))"

section \<open>Floating-point values\<close>

text \<open>
  Python's floats are binary64 and the engine's tensors are binary32 (its default type):
  every operation computes the exact result and rounds it to the nearest value of the
  format, ties to the even significand.  A value of a format is \<open>m * 2^k\<close> with
  \<open>|m| < 2^p\<close> and \<open>k\<close> between \<open>kmin\<close> and \<open>kmax\<close>, where \<open>p\<close> is the precision; the
  subnormal values are those with \<open>k = kmin\<close>.  A result beyond the largest value becomes
  an infinity.
\<close>

datatype fval = Finite real | PosInf | NegInf | NaN

record fformat =
  prec :: nat
  kmin :: int
  kmax :: int

definition binary32 :: fformat where
  "binary32 = \<lparr>prec = 24, kmin = - 149, kmax = 104\<rparr>"

definition binary64 :: fformat where
  "binary64 = \<lparr>prec = 53, kmin = - 1074, kmax = 971\<rparr>"

text \<open>
  The exponent \<open>k\<close> of the unit in the last place of \<open>x\<close>: the largest one, searched
  downwards from \<open>kmax\<close>, for which \<open>|x|\<close> reaches \<open>2^(p-1) * 2^k\<close>, and \<open>kmin\<close> when there
  is none.
\<close>

definition reaches :: "fformat \<Rightarrow> real \<Rightarrow> int \<Rightarrow> bool" where
  "reaches F x k \<longleftrightarrow> 2 ^ (prec F - 1) * 2 powi k \<le> \<bar>x\<bar>"

function ulp_exp :: "fformat \<Rightarrow> real \<Rightarrow> int \<Rightarrow> int" where
  "ulp_exp F x k =
     (if k \<le> kmin F then kmin F
      else if reaches F x k then k
      else ulp_exp F x (k - 1))"
  by pat_completeness auto
termination
  by (relation "measure (\<lambda>(F, x, k). nat (k - kmin F))") auto

text \<open>Rounding to the nearest integer, a tie going to the even one.\<close>

definition rne :: "real \<Rightarrow> int" where
  "rne t =
     (let f = \<lfloor>t\<rfloor>; d = t - of_int f in
      if d < 1 / 2 then f
      else if 1 / 2 < d then f + 1
      else if even f then f else f + 1)"

definition round_val :: "fformat \<Rightarrow> real \<Rightarrow> real" where
  "round_val F x = (let k = ulp_exp F x (kmax F) in of_int (rne (x / 2 powi k)) * 2 powi k)"

definition fmax :: "fformat \<Rightarrow> real" where
  "fmax F = (2 ^ prec F - 1) * 2 powi kmax F"

definition round_to :: "fformat \<Rightarrow> real \<Rightarrow> fval" where
  "round_to F x =
     (let v = round_val F x in
      if \<bar>v\<bar> \<le> fmax F then Finite v else if 0 < x then PosInf else NegInf)"

text \<open>A real number is a value of the format when rounding leaves it as it is.\<close>

definition is_float :: "fformat \<Rightarrow> real \<Rightarrow> bool" where
  "is_float F x \<longleftrightarrow> round_to F x = Finite x"

text \<open>Product and sum in binary32, with the infinities and NaN of the standard.\<close>

fun fneg :: "fval \<Rightarrow> fval" where
  "fneg (Finite a) = Finite (- a)"
| "fneg PosInf = NegInf"
| "fneg NegInf = PosInf"
| "fneg NaN = NaN"

fun fmul32 :: "fval \<Rightarrow> fval \<Rightarrow> fval" where
  "fmul32 NaN y = NaN"
| "fmul32 x NaN = NaN"
| "fmul32 (Finite a) (Finite b) = round_to binary32 (a * b)"
| "fmul32 (Finite a) y = (if a = 0 then NaN else if 0 < a then y else fneg y)"
| "fmul32 x (Finite b) = (if b = 0 then NaN else if 0 < b then x else fneg x)"
| "fmul32 x y = (if x = y then PosInf else NegInf)"

fun fadd32 :: "fval \<Rightarrow> fval \<Rightarrow> fval" where
  "fadd32 NaN y = NaN"
| "fadd32 x NaN = NaN"
| "fadd32 (Finite a) (Finite b) = round_to binary32 (a + b)"
| "fadd32 (Finite a) y = y"
| "fadd32 x (Finite b) = x"
| "fadd32 x y = (if x = y then x else NaN)"

text \<open>
  \<open>high - low\<close> on Python floats is a binary64 subtraction.  A Python float that meets a
  binary32 tensor is converted to binary32 first.
\<close>

definition py_sub :: "real \<Rightarrow> real \<Rightarrow> fval" where
  "py_sub a b = round_to binary64 (a - b)"

fun to_float32 :: "fval \<Rightarrow> fval" where
  "to_float32 (Finite a) = round_to binary32 a"
| "to_float32 x = x"

text \<open>
  Scalar times tensor and tensor plus scalar, entry by entry.  The entries of the tensor
  that \<open>rand\<close> returns are binary32 values already.
\<close>

definition scalar_mul :: "fval \<Rightarrow> real tensor \<Rightarrow> fval tensor" where
  "scalar_mul c t = Tensor (shape t) (map (\<lambda>u. fmul32 (to_float32 c) (Finite u)) (data t))"

definition add_scalar :: "fval tensor \<Rightarrow> real \<Rightarrow> fval tensor" where
  "add_scalar t c = Tensor (shape t) (map (\<lambda>p. fadd32 p (round_to binary32 c)) (data t))"


section \<open>The array engine\<close>

text \<open>
  The module draws through the engine's process-wide generator.  The engine is not part
  of the repository, so it is a parameter: a record of its sampling primitives, each
  taking the generator state \<open>'g\<close> and returning its result (or the exception it raised)
  with the state it leaves behind.
\<close>

record 'g engine =
  torch_manual_seed :: "int \<Rightarrow> 'g \<Rightarrow> (error + unit) \<times> 'g"
  torch_rand :: "shape \<Rightarrow> 'g \<Rightarrow> (error + real tensor) \<times> 'g"
  torch_randint :: "nat \<Rightarrow> shape \<Rightarrow> 'g \<Rightarrow> (error + nat tensor) \<times> 'g"
  torch_normal :: "real \<Rightarrow> real \<Rightarrow> shape \<Rightarrow> 'g \<Rightarrow> (error + real tensor) \<times> 'g"
  torch_mvn_sample ::
    "real tensor \<Rightarrow> real tensor \<Rightarrow> shape option \<Rightarrow> 'g \<Rightarrow> (error + real tensor) \<times> 'g"


definition randint_ok :: "'g engine \<Rightarrow> nat \<Rightarrow> shape \<Rightarrow> 'g \<Rightarrow> bool" where
  "randint_ok E n s g =
     (case torch_randint E n s g of
        (Inl e, g') \<Rightarrow> False
      | (Inr t, g') \<Rightarrow> shape t = s \<and> wf_tensor t \<and> (\<forall>i \<in> set (data t). i < n))"

section \<open>The random module\<close>

text \<open>
  The \<open>size\<close> argument: a single integer or a tuple of integers.  Only the tuple has
  \<open>__iter__\<close>, so \<open>normal\<close> and \<open>uniform\<close> wrap the integer into a one-element tuple
  and leave the tuple as it is.
\<close>

datatype size = SizeInt nat | SizeTuple "nat list"

fun normalize_size :: "size \<Rightarrow> shape" where
  "normalize_size (SizeInt n) = [n]"
| "normalize_size (SizeTuple ns) = ns"

definition seed :: "'g engine \<Rightarrow> int \<Rightarrow> 'g \<Rightarrow> (error + unit) \<times> 'g" where
  "seed E k g = torch_manual_seed E k g"

definition normal :: "'g engine \<Rightarrow> real \<Rightarrow> real \<Rightarrow> size \<Rightarrow> 'g \<Rightarrow> (error + real tensor) \<times> 'g" where
  "normal E loc scale sz g = torch_normal E loc scale (normalize_size sz) g"

text \<open>
  \<open>rand(*size)\<close>: the entries of the tuple become the positional arguments of the engine's
  \<open>rand\<close>.  The empty tuple leaves none, and \<open>rand\<close> called without its size raises
  \<open>TypeError\<close> before anything is drawn.
\<close>

definition rand_unpacked :: "'g engine \<Rightarrow> shape \<Rightarrow> 'g \<Rightarrow> (error + real tensor) \<times> 'g" where
  "rand_unpacked E s g = (if s = [] then (Inl TypeError, g) else torch_rand E s g)"

definition uniform :: "'g engine \<Rightarrow> real \<Rightarrow> real \<Rightarrow> size \<Rightarrow> 'g \<Rightarrow> (error + fval tensor) \<times> 'g" where
  "uniform E low high sz g =
     (let s = normalize_size sz in
      if low \<ge> high then (Inl ValueError, g)
      else (case rand_unpacked E s g of
              (Inl e, g') \<Rightarrow> (Inl e, g')
            | (Inr t, g') \<Rightarrow> (Inr (add_scalar (scalar_mul (py_sub high low) t) low), g')))"

definition choice :: "'g engine \<Rightarrow> 'a pyval \<Rightarrow> nat \<Rightarrow> 'g \<Rightarrow> (error + 'a pyval) \<times> 'g" where
  "choice E x a g =
     (case x of
        PTensor t \<Rightarrow>
          (case len_t t of
             Inl e \<Rightarrow> (Inl e, g)
           | Inr n \<Rightarrow>
               (case torch_randint E n [a] g of
                  (Inl e, g') \<Rightarrow> (Inl e, g')
                | (Inr idx, g') \<Rightarrow>
                    (case index_t t idx of
                       Inl e \<Rightarrow> (Inl e, g')
                     | Inr r \<Rightarrow> (Inr (PTensor r), g'))))
      | _ \<Rightarrow> (Inr x, g))"

definition multivariate_normal ::
  "'g engine \<Rightarrow> real tensor \<Rightarrow> real tensor \<Rightarrow> shape option \<Rightarrow> 'g \<Rightarrow> (error + real tensor) \<times> 'g" where
  "multivariate_normal E mean cov sz g = torch_mvn_sample E mean cov sz g"

section \<open>Sampling calls\<close>

text \<open>
  One call of a sampling function of the module, on the generator state it finds.
\<close>

datatype call =
    CallUniform real real size
  | CallNormal real real size
  | CallChoice "real pyval" nat
  | CallMultivariateNormal "real tensor" "real tensor" "shape option"

datatype draw = DrawFloats "fval tensor" | DrawTensor "real tensor" | DrawValue "real pyval"

fun perform :: "'g engine \<Rightarrow> call \<Rightarrow> 'g \<Rightarrow> (error + draw) \<times> 'g" where
  "perform E (CallUniform low high sz) g =
     (case uniform E low high sz g of (r, g') \<Rightarrow> (map_sum id DrawFloats r, g'))"
| "perform E (CallNormal loc scale sz) g =
     (case normal E loc scale sz g of (r, g') \<Rightarrow> (map_sum id DrawTensor r, g'))"
| "perform E (CallChoice x a) g =
     (case choice E x a g of (r, g') \<Rightarrow> (map_sum id DrawValue r, g'))"
| "perform E (CallMultivariateNormal mean cov sz) g =
     (case multivariate_normal E mean cov sz g of (r, g') \<Rightarrow> (map_sum id DrawTensor r, g'))"

section \<open>Small engines for evaluation\<close>

text \<open>
  A linear congruential generator over 16 bits, with the interface of the engine.  It
  stands for the engine wherever a theorem is evaluated on concrete inputs.  It refuses
  \<open>randint 0\<close>, a negative \<open>std\<close> and a missing sample shape.
\<close>

definition lcg_next :: "nat \<Rightarrow> nat" where
  "lcg_next g = (25173 * g + 13849) mod 65536"

fun lcg_draws :: "nat \<Rightarrow> nat \<Rightarrow> nat list \<times> nat" where
  "lcg_draws 0 g = ([], g)"
| "lcg_draws (Suc n) g = (case lcg_draws n (lcg_next g) of (xs, g') \<Rightarrow> (lcg_next g # xs, g'))"

definition lcg_engine :: "nat engine" where
  "lcg_engine = \<lparr>
     torch_manual_seed = (\<lambda>k g. (Inr (), nat (k mod 65536))),
     torch_rand = (\<lambda>s g. case lcg_draws (numel s) g of
        (xs, g') \<Rightarrow> (Inr (Tensor s (map (\<lambda>x. real x / 65536) xs)), g')),
     torch_randint = (\<lambda>n s g. if n = 0 then (Inl RuntimeError, g)
        else case lcg_draws (numel s) g of (xs, g') \<Rightarrow> (Inr (Tensor s (map (\<lambda>x. x mod n) xs)), g')),
     torch_normal = (\<lambda>loc scale s g. if scale < 0 then (Inl RuntimeError, g)
        else case lcg_draws (numel s) g of
          (xs, g') \<Rightarrow> (Inr (Tensor s (map (\<lambda>x. loc + scale * (real x / 32768 - 1)) xs)), g')),
     torch_mvn_sample = (\<lambda>mean cov sz g. case sz of
          None \<Rightarrow> (Inl TypeError, g)
        | Some s \<Rightarrow> (case lcg_draws (numel (s @ shape mean)) g of
            (xs, g') \<Rightarrow> (Inr (Tensor (s @ shape mean) (map (\<lambda>x. real x / 32768 - 1) xs)), g')))
   \<rparr>"


section \<open>Regression parameters and the autodiff adapter\<close>

text \<open>
  Modelled from the spec: the backend's \<open>flatten\<close> and \<open>vstack\<close>, which the regression tests
  use to build the parameter and which are not among the source files.  The spec asks
  them to follow the reference array semantics: \<open>flatten\<close> keeps the entries in one axis,
  \<open>vstack\<close> makes every operand at least two-axis and joins them along the first axis,
  refusing operands whose other axes differ.
\<close>

definition flatten :: "'a tensor \<Rightarrow> 'a tensor" where
  "flatten t = Tensor [numel (shape t)] (data t)"

fun atleast_2d :: "shape \<Rightarrow> shape" where
  "atleast_2d [] = [1, 1]"
| "atleast_2d [n] = [1, n]"
| "atleast_2d s = s"

definition vstack :: "'a tensor list \<Rightarrow> error + 'a tensor" where
  "vstack ts =
     (case map (atleast_2d \<circ> shape) ts of
        [] \<Rightarrow> Inl ValueError
      | s # ss \<Rightarrow>
          if \<forall>r \<in> set ss. tl r = tl s
          then Inr (Tensor (sum_list (map hd (s # ss)) # tl s) (concat (map data ts)))
          else Inl RuntimeError)"

text \<open>
  Modelled from the spec: the autodiff adapter \<open>value_and_grad\<close> (section 4.3), which is not
  among the source files.  For a scalar function \<open>f\<close> of the parameter it returns the
  loss, an array of shape \<open>()\<close>, and the gradient, the array of the partial derivatives of
  \<open>f\<close> by the entries of the parameter, laid out as the parameter is.  The derivative
  itself is the engine's: \<open>D f xs i\<close> stands for the partial derivative by entry \<open>i\<close>.
\<close>

definition value_and_grad ::
  "((real list \<Rightarrow> real) \<Rightarrow> real list \<Rightarrow> nat \<Rightarrow> real) \<Rightarrow> (real tensor \<Rightarrow> real) \<Rightarrow> real tensor
     \<Rightarrow> real tensor \<times> real tensor" where
  "value_and_grad D f p =
     (Tensor [] [f p],
      Tensor (shape p) (map (D (\<lambda>xs. f (Tensor (shape p) xs)) (data p)) [0..<length (data p)]))"

text \<open>
  The parameter as the regression tests stack it: the flattened intercept over the
  flattened coefficient (\<open>param_se2_true\<close>, \<open>param_se2_guess\<close>, \<open>param_curves_2d_true\<close>).
  For points with one axis the tests stack them as they are (\<open>param_eucl_true\<close>,
  \<open>param_sphere_true\<close>), which is the same array.
\<close>

definition param_of :: "real tensor \<Rightarrow> real tensor \<Rightarrow> error + real tensor" where
  "param_of intercept coef = vstack [flatten intercept, flatten coef]"

text \<open>
  A loss and its derivative for evaluation: the sum of the squared entries.
\<close>

definition sum_squares :: "real tensor \<Rightarrow> real" where
  "sum_squares p = sum_list (map (\<lambda>x. x * x) (data p))"

definition diff_squares :: "(real list \<Rightarrow> real) \<Rightarrow> real list \<Rightarrow> nat \<Rightarrow> real" where
  "diff_squares f xs i = 2 * xs ! i"

section \<open>Helper lemmas\<close>

lemma lcg_draws_unroll:
  "lcg_draws n g =
     (if n = 0 then ([], g)
      else case lcg_draws (n - 1) (lcg_next g) of (xs, g') \<Rightarrow> (lcg_next g # xs, g'))"
  by (cases n) simp_all

lemma lcg_draws_4_7: "lcg_draws 4 7 = ([58988, 4085, 19570, 15347], 15347)"
  by (simp add: lcg_draws_unroll lcg_next_def)

lemma concat_nth_block:
  "\<forall>xs \<in> set xss. length xs = m \<Longrightarrow> j < length xss \<Longrightarrow>
     take m (drop (j * m) (concat xss)) = xss ! j"
proof (induction xss arbitrary: j)
  case Nil
  then show ?case by simp
next
  case (Cons xs xss)
  show ?case
  proof (cases j)
    case 0
    with Cons.prems show ?thesis by simp
  next
    case (Suc j')
    with Cons.prems have "take m (drop (j' * m) (concat xss)) = xss ! j'"
      by (intro Cons.IH) auto
    with Suc Cons.prems show ?thesis by (simp add: add.commute)
  qed
qed

lemma length_concat_blocks:
  "\<forall>xs \<in> set xss. length xs = m \<Longrightarrow> length (concat xss) = length xss * m"
  by (induction xss) auto

lemma length_row:
  assumes "wf_tensor t" "shape t = n # rest" "i < n"
  shows "length (row t i) = numel rest"
proof -
  have len: "length (data t) = n * numel rest"
    using assms(1,2) by (simp add: wf_tensor_def numel_def)
  have "Suc i \<le> n" using assms(3) by simp
  then have "Suc i * numel rest \<le> n * numel rest" by (rule mult_le_mono1)
  then have "numel rest \<le> n * numel rest - i * numel rest" by simp
  with len show ?thesis using assms(2) by (simp add: row_def Let_def)
qed

subsection \<open>Rounding\<close>

declare ulp_exp.simps [simp del]


lemma ulp_exp_bounds:
  "kmin F \<le> k \<Longrightarrow> kmin F \<le> ulp_exp F x k \<and> ulp_exp F x k \<le> k"
proof (induction F x k rule: ulp_exp.induct)
  case (1 F x k)
  show ?case
  proof (cases "k \<le> kmin F")
    case True
    with "1.prems" show ?thesis by (simp add: ulp_exp.simps [of F x k])
  next
    case False
    show ?thesis
    proof (cases "reaches F x k")
      case True
      with False show ?thesis by (simp add: ulp_exp.simps [of F x k])
    next
      case nr: False
      with False "1.IH" have "kmin F \<le> ulp_exp F x (k - 1) \<and> ulp_exp F x (k - 1) \<le> k - 1"
        by simp
      with False nr show ?thesis by (simp add: ulp_exp.simps [of F x k])
    qed
  qed
qed

lemma ulp_exp_hit: "kmin F < ulp_exp F x k \<Longrightarrow> reaches F x (ulp_exp F x k)"
proof (induction F x k rule: ulp_exp.induct)
  case (1 F x k)
  show ?case
  proof (cases "k \<le> kmin F")
    case True
    with "1.prems" show ?thesis by (simp add: ulp_exp.simps [of F x k])
  next
    case False
    show ?thesis
    proof (cases "reaches F x k")
      case True
      with False show ?thesis by (simp add: ulp_exp.simps [of F x k])
    next
      case nr: False
      with False "1.prems" have "kmin F < ulp_exp F x (k - 1)"
        by (simp add: ulp_exp.simps [of F x k])
      with False nr "1.IH" have "reaches F x (ulp_exp F x (k - 1))" by simp
      with False nr show ?thesis by (simp add: ulp_exp.simps [of F x k])
    qed
  qed
qed




lemma rne_of_int: "rne (of_int n) = n"
  by (simp add: rne_def)


lemma powi_split: "k \<le> j \<Longrightarrow> (2::real) powi j = 2 ^ nat (j - k) * 2 powi k"
proof -
  assume le: "k \<le> j"
  have "(2::real) powi j = 2 powi ((j - k) + k)" by simp
  also have "\<dots> = 2 powi (j - k) * 2 powi k" by (rule power_int_add) simp
  also have "(2::real) powi (j - k) = 2 ^ nat (j - k)" using le by (simp add: power_int_def)
  finally show ?thesis .
qed

lemma powi_less_D: "(2::real) powi i < 2 powi j \<Longrightarrow> i < j"
proof (rule ccontr)
  assume lt: "(2::real) powi i < 2 powi j" and "\<not> i < j"
  then have "j \<le> i" by simp
  then have "(2::real) powi j \<le> 2 powi i" by (intro power_int_increasing) auto
  with lt show False by simp
qed

lemma pow_pred_double: "0 < p \<Longrightarrow> (2::real) ^ p = 2 ^ (p - 1) * 2"
  by (cases p) simp_all

lemma round_val_fix:
  assumes "kmin F \<le> kmax F" and "x = of_int m * 2 powi k" and "\<bar>m\<bar> < 2 ^ prec F"
    and "kmin F \<le> k" and "0 < prec F"
  shows "round_val F x = x"
proof -
  define r where "r = ulp_exp F x (kmax F)"
  define u :: real where "u = 2 powi r"
  have b: "kmin F \<le> r" using assms(1) ulp_exp_bounds [of F "kmax F" x] by (simp add: r_def)
  have le: "r \<le> k"
  proof (cases "kmin F < r")
    case False
    with b assms(4) show ?thesis by simp
  next
    case True
    then have "reaches F x r" unfolding r_def by (rule ulp_exp_hit)
    then have "2 ^ (prec F - 1) * 2 powi r \<le> \<bar>x\<bar>" by (simp add: reaches_def)
    also have "\<bar>x\<bar> = \<bar>of_int m\<bar> * (2::real) powi k" by (simp add: assms(2) abs_mult)
    also have "\<dots> < 2 ^ prec F * 2 powi k"
    proof -
      have "(of_int \<bar>m\<bar> :: real) < of_int (2 ^ prec F)"
        using assms(3) by (simp only: of_int_less_iff)
      then have "\<bar>of_int m :: real\<bar> < 2 ^ prec F" by simp
      then show ?thesis by (intro mult_strict_right_mono) auto
    qed
    also have "\<dots> = 2 ^ (prec F - 1) * 2 powi (k + 1)"
    proof -
      have "(2::real) ^ prec F = 2 ^ (prec F - 1) * 2"
        using assms(5) by (rule pow_pred_double)
      then show ?thesis by (simp add: power_int_add)
    qed
    finally have "(2::real) powi r < 2 powi (k + 1)" by simp
    then have "r < k + 1" by (rule powi_less_D)
    then show ?thesis by simp
  qed
  have upos: "0 < u" by (simp add: u_def)
  have pk: "(2::real) powi k = 2 ^ nat (k - r) * u"
    unfolding u_def using le by (rule powi_split)
  have xu: "x = of_int (m * 2 ^ nat (k - r)) * u"
    by (simp add: assms(2) pk)
  then have "x / u = of_int (m * 2 ^ nat (k - r))" using upos by simp
  then have "rne (x / u) = m * 2 ^ nat (k - r)" by (simp only: rne_of_int)
  then have "round_val F x = of_int (m * 2 ^ nat (k - r)) * u"
    by (simp add: round_val_def Let_def r_def [symmetric] u_def [symmetric])
  with xu show ?thesis by simp
qed

lemma is_float_iff: "is_float F x \<longleftrightarrow> round_val F x = x \<and> \<bar>x\<bar> \<le> fmax F"
  by (auto simp: is_float_def round_to_def Let_def)






lemma is_float_intro:
  assumes "0 < prec F" and "kmin F \<le> kmax F" and "x = of_int m * 2 powi k"
    and "\<bar>m\<bar> < 2 ^ prec F" and "kmin F \<le> k" and "\<bar>x\<bar> \<le> fmax F"
  shows "is_float F x"
  using round_val_fix [OF assms(2,3,4,5,1)] assms(6) by (simp add: is_float_iff)

subsection \<open>Values of the formats, evaluated\<close>


lemma round32_exact:
  assumes "x = of_int m * 2 powi k" and "\<bar>m\<bar> < 16777216" and "- 149 \<le> k"
    and "\<bar>x\<bar> \<le> fmax binary32"
  shows "round_to binary32 x = Finite x"
proof -
  have "is_float binary32 x"
    by (rule is_float_intro [where m = m and k = k])
       (use assms in \<open>simp_all add: binary32_def\<close>)
  then show ?thesis by (simp add: is_float_def)
qed

lemma round64_exact:
  assumes "x = of_int m * 2 powi k" and "\<bar>m\<bar> < 9007199254740992" and "- 1074 \<le> k"
    and "\<bar>x\<bar> \<le> fmax binary64"
  shows "round_to binary64 x = Finite x"
proof -
  have "is_float binary64 x"
    by (rule is_float_intro [where m = m and k = k])
       (use assms in \<open>simp_all add: binary64_def\<close>)
  then show ?thesis by (simp add: is_float_def)
qed

lemma r64_1: "round_to binary64 1 = Finite 1"
  by (rule round64_exact [where m = 1 and k = 0]) (simp_all add: fmax_def binary64_def)


lemma r32_0: "round_to binary32 0 = Finite 0"
  by (rule round32_exact [where m = 0 and k = 0]) (simp_all add: fmax_def binary32_def)

lemma r32_1: "round_to binary32 1 = Finite 1"
  by (rule round32_exact [where m = 1 and k = 0]) (simp_all add: fmax_def binary32_def)




lemma r32_draw: "round_to binary32 (14747 / 16384) = Finite (14747 / 16384)"
  by (rule round32_exact [where m = 14747 and k = "- 14"]) (simp_all add: fmax_def binary32_def)







section \<open>Properties of the specification\<close>

subsection \<open>C2: the domain error of \<open>uniform\<close>\<close>




subsection \<open>C4: \<open>choice\<close>\<close>

text \<open>
  C4 as stated fails: a tensor without axes, such as the scalar array \<open>1.5\<close>, is a native
  array, and \<open>choice\<close> raises \<open>TypeError\<close> on it, since it has no \<open>len\<close>.
\<close>

theorem choice_scalar_tensor_counterexample:
  "is_tensor (PTensor (Tensor [] [3 / 2 :: real])) \<and> wf_tensor (Tensor [] [3 / 2 :: real]) \<and>
   fst (choice lcg_engine (PTensor (Tensor [] [3 / 2 :: real])) 2 7) = Inl TypeError"
  by (simp add: choice_def wf_tensor_def numel_def)

text \<open>
  C4, amended.  If the population is a native array whose first axis is not empty,
  \<open>choice(population, a)\<close> returns an array of exactly \<open>a\<close> slices, each equal to a slice
  along the population's first axis; on a native array without axes it raises \<open>TypeError\<close>
  and leaves the generator alone; a population that is not a native array is returned
  unchanged, the generator untouched.  The engine is asked that \<open>randint\<close> answers the
  request with indices below the length of the first axis.
\<close>

theorem choice_rows:
  "(shape t = n # rest \<and> 0 < n \<and> wf_tensor t \<and> randint_ok E n [a] g \<longrightarrow>
      (\<exists>r g'. choice E (PTensor t) a g = (Inr (PTensor r), g') \<and> shape r = a # rest \<and>
         wf_tensor r \<and> (\<forall>j < a. \<exists>i < n. row r j = row t i))) \<and>
   (shape t = [] \<longrightarrow> choice E (PTensor t) a g = (Inl TypeError, g)) \<and>
   (\<not> is_tensor x \<longrightarrow> choice E x a g = (Inr x, g))"
proof (intro conjI impI)
  assume "\<not> is_tensor x"
  then show "choice E x a g = (Inr x, g)"
    by (cases x) (simp_all add: choice_def)
next
  assume "shape t = []"
  then show "choice E (PTensor t) a g = (Inl TypeError, g)"
    by (cases t) (simp add: choice_def)
next
  assume h: "shape t = n # rest \<and> 0 < n \<and> wf_tensor t \<and> randint_ok E n [a] g"
  then obtain xs where t: "t = Tensor (n # rest) xs" by (cases t) auto
  from h have w: "wf_tensor t" and st: "shape t = n # rest" by auto
  from h obtain idx g' where
    r: "torch_randint E n [a] g = (Inr idx, g')" and
    si: "shape idx = [a]" and wi: "wf_tensor idx" and
    bi: "\<forall>i \<in> set (data idx). i < n"
    by (auto simp: randint_ok_def split: prod.splits sum.splits)
  have li: "length (data idx) = a" using si wi by (simp add: wf_tensor_def numel_def)
  let ?rows = "map (row t) (data idx)"
  let ?r = "Tensor (a # rest) (concat ?rows)"
  have blocks: "\<forall>ys \<in> set ?rows. length ys = numel rest"
    using bi length_row [OF w st] by auto
  have ix: "index_t t idx = Inr ?r"
    using bi si by (auto simp: t)
  have c: "choice E (PTensor t) a g = (Inr (PTensor ?r), g')"
    using r ix by (simp add: choice_def t)
  have wr: "wf_tensor ?r"
    using length_concat_blocks [OF blocks] li by (simp add: wf_tensor_def numel_def)
  have rows: "\<exists>i < n. row ?r j = row t i" if "j < a" for j
  proof -
    have "row ?r j = ?rows ! j"
      using concat_nth_block [OF blocks, of j] that li by (simp add: row_def)
    also have "\<dots> = row t (data idx ! j)" using that li by simp
    finally have "row ?r j = row t (data idx ! j)" .
    moreover have "data idx ! j < n" using bi that li by simp
    ultimately show ?thesis by blast
  qed
  show "\<exists>r g'. choice E (PTensor t) a g = (Inr (PTensor r), g') \<and> shape r = a # rest \<and>
      wf_tensor r \<and> (\<forall>j < a. \<exists>i < n. row r j = row t i)"
    using c wr rows by auto
qed

theorem choice_rows_witness:
  "shape (Tensor [3, 2] [1, 2, 3, 4, 5, 6 :: nat]) = [3, 2] \<and>
   wf_tensor (Tensor [3, 2] [1, 2, 3, 4, 5, 6 :: nat]) \<and>
   randint_ok lcg_engine 3 [4] 7 \<and>
   choice lcg_engine (PTensor (Tensor [3, 2] [1, 2, 3, 4, 5, 6 :: nat])) 4 7
     = (Inr (PTensor (Tensor [4, 2] [5, 6, 5, 6, 3, 4, 5, 6])), 15347) \<and>
   choice lcg_engine (PTensor (Tensor [] [1 :: nat])) 4 7 = (Inl TypeError, 7) \<and>
   choice lcg_engine (PList [1, 2 :: nat]) 4 7 = (Inr (PList [1, 2]), 7)"
proof -
  have r: "torch_randint lcg_engine 3 [4] 7 = (Inr (Tensor [4] [2, 2, 1, 2]), 15347)"
    by (simp add: lcg_engine_def numel_def lcg_draws_4_7)
  have ok: "randint_ok lcg_engine 3 [4] 7"
    by (simp add: randint_ok_def r wf_tensor_def numel_def)
  have e: "choice lcg_engine (PTensor (Tensor [3, 2] [1, 2, 3, 4, 5, 6 :: nat])) 4 7
     = (Inr (PTensor (Tensor [4, 2] [5, 6, 5, 6, 3, 4, 5, 6])), 15347)"
    by (simp add: choice_def r numel_def row_def)
  have w: "wf_tensor (Tensor [3, 2] [1, 2, 3, 4, 5, 6 :: nat])"
    by (simp add: wf_tensor_def numel_def)
  show ?thesis
    using ok e w
      choice_rows [of "Tensor [3, 2] [1, 2, 3, 4, 5, 6 :: nat]" 3 "[2]" lcg_engine 4 7
        "PList [1, 2 :: nat]"]
      choice_rows [of "Tensor [] [1 :: nat]" 3 "[2]" lcg_engine 4 7 "PList [1, 2 :: nat]"]
    by simp
qed

subsection \<open>C5: the range of \<open>uniform\<close> and the normalization of \<open>size\<close>\<close>




subsection \<open>C7: the shape of the gradient\<close>

text \<open>
  C7 as stated fails: for the points of SE(2), of shape \<open>(3, 3)\<close>, the regression tests
  evaluate the adapter at a parameter of shape \<open>(2, 9)\<close> and expect a gradient of shape
  \<open>(2, 9)\<close>, which is not \<open>(2,) + (3, 3)\<close>.
\<close>

theorem gradient_shape_se2_counterexample:
  "map_sum id shape (param_of (Tensor [3, 3] [1, 0, 0, 0, 1, 0, 0, 0, 1])
        (Tensor [3, 3] [0, 1, 0, 1, 0, 0, 0, 0, 0])) = Inr [2, 9] \<and>
   shape (snd (value_and_grad diff_squares sum_squares
       (Tensor [2, 9] [1, 0, 0, 0, 1, 0, 0, 0, 1, 0, 1, 0, 1, 0, 0, 0, 0, 0]))) = [2, 9] \<and>
   [2, 9] \<noteq> 2 # [3, 3 :: nat]"
  by (simp add: param_of_def vstack_def flatten_def value_and_grad_def numel_def)

text \<open>
  C7, amended.  The gradient that the adapter returns has exactly the shape of the
  parameter it was evaluated at.  For a parameter stacked from an intercept and a
  coefficient of shape \<open>point_shape\<close> this shape is \<open>(2, n)\<close>, with \<open>n\<close> the number of entries
  of a point; it is \<open>(2,) + point_shape\<close> when the points have one axis (Euclidean space,
  the hypersphere).
\<close>

theorem gradient_shape:
  assumes "shape intercept = ps" "shape coef = ps"
  shows "(\<exists>p. param_of intercept coef = Inr p \<and> shape p = [2, numel ps] \<and>
            shape (snd (value_and_grad D f p)) = shape p \<and>
            (wf_tensor intercept \<and> wf_tensor coef \<longrightarrow>
               wf_tensor p \<and> wf_tensor (snd (value_and_grad D f p)))) \<and>
         (ps = [d] \<longrightarrow> [2, numel ps] = 2 # ps \<and> vstack [intercept, coef] = param_of intercept coef)"
  using assms
  by (cases intercept; cases coef)
     (auto simp: param_of_def vstack_def flatten_def value_and_grad_def wf_tensor_def numel_def)

theorem gradient_shape_witness:
  "shape (Tensor [3] [1, 2, 3 :: real]) = [3] \<and> shape (Tensor [3] [0, 1, 0 :: real]) = [3] \<and>
   wf_tensor (Tensor [3] [1, 2, 3 :: real]) \<and> wf_tensor (Tensor [3] [0, 1, 0 :: real]) \<and>
   param_of (Tensor [3] [1, 2, 3]) (Tensor [3] [0, 1, 0]) = Inr (Tensor [2, 3] [1, 2, 3, 0, 1, 0]) \<and>
   vstack [Tensor [3] [1, 2, 3 :: real], Tensor [3] [0, 1, 0]]
     = Inr (Tensor [2, 3] [1, 2, 3, 0, 1, 0]) \<and>
   snd (value_and_grad diff_squares sum_squares (Tensor [2, 3] [1, 2, 3, 0, 1, 0]))
     = Tensor [2, 3] [2, 4, 6, 0, 2, 0] \<and>
   wf_tensor (Tensor [2, 3] [2, 4, 6, 0, 2, 0 :: real]) \<and>
   [2, numel [3]] = 2 # [3 :: nat]"
proof -
  have e: "snd (value_and_grad diff_squares sum_squares (Tensor [2, 3] [1, 2, 3, 0, 1, 0]))
     = Tensor [2, 3] [2, 4, 6, 0, 2, 0]"
    by (simp add: value_and_grad_def diff_squares_def upt_rec)
  have w: "wf_tensor (Tensor [3] [1, 2, 3 :: real]) \<and> wf_tensor (Tensor [3] [0, 1, 0 :: real])"
    by (simp add: wf_tensor_def numel_def)
  have p: "param_of (Tensor [3] [1, 2, 3]) (Tensor [3] [0, 1, 0])
     = Inr (Tensor [2, 3] [1, 2, 3, 0, 1, 0])"
    by (simp add: param_of_def vstack_def flatten_def numel_def)
  show ?thesis
    using e w p gradient_shape [of "Tensor [3] [1, 2, 3]" "[3]" "Tensor [3] [0, 1, 0]"
        diff_squares sum_squares 3]
    by simp
qed

subsection \<open>C10: a refused \<open>uniform\<close> leaves the generator alone\<close>

text \<open>
  C10.  When \<open>uniform(low, high, size)\<close> raises the domain error for \<open>low \<ge> high\<close>, no draw
  has been made: the generator state is the one the call found, and any call made next
  gives what it would have given had the failed call never happened.
\<close>

theorem uniform_error_keeps_generator:
  assumes "low \<ge> high"
  shows "uniform E low high sz g = (Inl ValueError, g) \<and>
         perform E c (snd (uniform E low high sz g)) = perform E c g"
  using assms by (simp add: uniform_def)

theorem uniform_error_keeps_generator_witness:
  "(3::real) \<ge> 2 \<and> uniform lcg_engine 3 2 (SizeInt 4) 7 = (Inl ValueError, 7) \<and>
   perform lcg_engine (CallUniform 0 1 (SizeInt 1)) (snd (uniform lcg_engine 3 2 (SizeInt 4) 7))
     = (Inr (DrawFloats (Tensor [1] [Finite (14747 / 16384)])), 58988) \<and>
   perform lcg_engine (CallUniform 0 1 (SizeInt 1)) 7
     = (Inr (DrawFloats (Tensor [1] [Finite (14747 / 16384)])), 58988)"
proof -
  have r: "torch_rand lcg_engine [Suc 0] 7 = (Inr (Tensor [Suc 0] [14747 / 16384]), 58988)"
    by (simp add: lcg_engine_def numel_def lcg_next_def)
  have e: "perform lcg_engine (CallUniform 0 1 (SizeInt 1)) 7
     = (Inr (DrawFloats (Tensor [1] [Finite (14747 / 16384)])), 58988)"
    by (simp add: uniform_def rand_unpacked_def r scalar_mul_def add_scalar_def py_sub_def
        r64_1 r32_1 r32_0 r32_draw)
  show ?thesis
    using e
      uniform_error_keeps_generator [of 2 3 lcg_engine "SizeInt 4" 7
        "CallUniform 0 1 (SizeInt 1)"]
    by simp
qed

end
